theory Spec2Isabelle
  imports Complex_Main "HOL-Library.Sublist"
begin

section \<open>The recursive thinking engine (src/src/lib.ts)\<close>

text \<open>
  A shallow embedding of \<^verbatim>\<open>lib.ts\<close>: the insight compressor \<^verbatim>\<open>compressInsights\<close>,
  the prompt generator \<^verbatim>\<open>generateThinkingPrompt\<close>, the readiness evaluator
  \<^verbatim>\<open>isProductionReady\<close>, the entry point \<^verbatim>\<open>recursiveThink\<close> and the iteration
  processor \<^verbatim>\<open>processIteration\<close>, with the parts of the ECMAScript library they call.

  Conventions of the model:
  \<^item> A string is a list of code units, \<open>string\<close>. HOL's \<open>char\<close> has 256 values, so the
    model covers the strings whose code units are below 256 (ASCII and Latin-1);
    \<open>length\<close> counts code units, as \<^verbatim>\<open>String.prototype.length\<close> does.
  \<^item> A \<^verbatim>\<open>number\<close> that the program compares or parses is \<open>number\<close>: \<open>NaN\<close>, or
    \<open>Num q\<close> with the exact rational value \<open>q\<close>. The rounding of IEEE doubles (and the
    overflow to \<^verbatim>\<open>Infinity\<close>) is not modelled; every comparison of the program is kept,
    with \<open>NaN\<close> comparing false against everything.
  \<^item> The counters \<^verbatim>\<open>depth\<close>, \<^verbatim>\<open>maxDepth\<close> and \<^verbatim>\<open>maxIterations\<close> are \<open>int\<close>: the
    integers the specification gives them. The source's \<^verbatim>\<open>depth + 1\<close> on a double is
    the integer sum for the counts from 0 up to \<open>2\<^sup>5\<^sup>3\<close> and stops growing there, so
    what is proved of the value of the new depth is stated for depths below \<open>2\<^sup>5\<^sup>3\<close>.
  \<^item> \<^verbatim>\<open>recursiveThink\<close> is \<^verbatim>\<open>async\<close> and awaits nothing; the model returns the value
    its promise resolves to.
  \<^item> The conversion of a number to text inside a template literal
    (\<^verbatim>\<open>Number::toString\<close>) is a parameter \<open>numberToString\<close> of the functions that
    build the refinement prompt: the theorems hold for every such conversion.
\<close>

subsection \<open>Characters and strings\<close>

abbreviation nl :: char where
  "nl \<equiv> CHR 0x0A"

abbreviation dq :: char where
  "dq \<equiv> CHR 0x22"

definition charCode :: "char \<Rightarrow> nat" where
  "charCode c = of_char c"

text \<open>
  \<^verbatim>\<open>String.prototype.toLowerCase\<close> on code units below 256: the ASCII capitals and the
  Latin-1 capitals (U+00C0 to U+00DE without the multiplication sign U+00D7) move up by
  32, every other code unit stays.
\<close>

definition toLowerChar :: "char \<Rightarrow> char" where
  "toLowerChar c =
     (let n = charCode c
      in if (65 \<le> n \<and> n \<le> 90) \<or> (192 \<le> n \<and> n \<le> 222 \<and> n \<noteq> 215)
         then char_of (n + 32) else c)"

definition toLowerCase :: "string \<Rightarrow> string" where
  "toLowerCase s = map toLowerChar s"

text \<open>
  The white space of ECMAScript below 256 (WhiteSpace and LineTerminator): TAB, LF, VT,
  FF, CR, SP and NBSP. It is what \<^verbatim>\<open>trim\<close> strips and what \<^verbatim>\<open>\s\<close> matches.
\<close>

definition isWhiteSpace :: "char \<Rightarrow> bool" where
  "isWhiteSpace c = (charCode c \<in> set [9, 10, 11, 12, 13, 32, 160])"

definition trim :: "string \<Rightarrow> string" where
  "trim s = rev (dropWhile isWhiteSpace (rev (dropWhile isWhiteSpace s)))"

text \<open>\<^verbatim>\<open>s.includes(kw)\<close>: \<open>kw\<close> occurs in \<open>s\<close> as a contiguous block.\<close>

fun includes_str :: "string \<Rightarrow> string \<Rightarrow> bool" where
  "includes_str [] kw = (kw = [])"
| "includes_str (c # cs) kw = (prefix kw (c # cs) \<or> includes_str cs kw)"

text \<open>
  \<^verbatim>\<open>s.split("\n")\<close>: the pieces between the newlines, always at least one piece (the
  empty string splits into one empty piece). The \<open>[]\<close> branch of the case is never
  taken.
\<close>

fun split_str :: "string \<Rightarrow> string list" where
  "split_str [] = [[]]"
| "split_str (c # cs) =
     (if c = nl then [] # split_str cs
      else (case split_str cs of [] \<Rightarrow> [[c]] | l # ls \<Rightarrow> (c # l) # ls))"

text \<open>\<^verbatim>\<open>ls.join("\n")\<close>.\<close>

fun join_str :: "string list \<Rightarrow> string" where
  "join_str [] = []"
| "join_str [l] = l"
| "join_str (l # ls) = l @ nl # join_str ls"

subsection \<open>Numbers\<close>

datatype number = NaN | Num rat

text \<open>\<^verbatim>\<open>a >= b\<close> on numbers: false as soon as one side is \<^verbatim>\<open>NaN\<close>.\<close>

fun num_ge :: "number \<Rightarrow> number \<Rightarrow> bool" where
  "num_ge (Num a) (Num b) = (b \<le> a)"
| "num_ge _ _ = False"

definition isDigit :: "char \<Rightarrow> bool" where
  "isDigit c = (48 \<le> charCode c \<and> charCode c \<le> 57)"

definition digitsValue :: "string \<Rightarrow> nat" where
  "digitsValue ds = foldl (\<lambda>acc c. 10 * acc + (charCode c - 48)) 0 ds"

text \<open>
  \<^verbatim>\<open>parseFloat\<close> on the strings the capture group \<^verbatim>\<open>([0-9.]+)\<close> can hold. It reads
  the longest prefix that is a decimal literal: digits, then optionally a dot and
  digits; or a dot and at least one digit. Whatever follows is ignored, and with no
  such prefix the result is \<^verbatim>\<open>NaN\<close>.
\<close>

definition parseFloat :: "string \<Rightarrow> number" where
  "parseFloat s =
     (let ds = takeWhile isDigit s; rest = dropWhile isDigit s
      in if ds \<noteq> [] then
           (case rest of
              c # cs \<Rightarrow>
                if c = CHR ''.'' then
                  (let fs = takeWhile isDigit cs
                   in Num (of_nat (digitsValue ds) + of_nat (digitsValue fs) / 10 ^ length fs))
                else Num (of_nat (digitsValue ds))
            | [] \<Rightarrow> Num (of_nat (digitsValue ds)))
         else
           (case rest of
              c # cs \<Rightarrow>
                (let fs = takeWhile isDigit cs
                 in if c = CHR ''.'' \<and> fs \<noteq> []
                    then Num (of_nat (digitsValue fs) / 10 ^ length fs)
                    else NaN)
            | [] \<Rightarrow> NaN))"

subsection \<open>The data model\<close>

record ThinkingState =
  depth :: int
  confidence :: number
  iterations :: "string list"
  lastResult :: string
  isComplete :: bool

record ThinkingConfig =
  maxDepth :: int
  minConfidence :: number
  maxIterations :: int
  temperature :: number

text \<open>
  \<^verbatim>\<open>Partial<ThinkingConfig>\<close>: every field may be absent, \<open>None\<close>. A field that is present
  holds a value of its type (a field set to \<^verbatim>\<open>undefined\<close> is not modelled).
\<close>

record PartialThinkingConfig =
  maxDepth_opt :: "int option"
  minConfidence_opt :: "number option"
  maxIterations_opt :: "int option"
  temperature_opt :: "number option"

definition DEFAULT_CONFIG :: ThinkingConfig where
  "DEFAULT_CONFIG =
     \<lparr>maxDepth = 5, minConfidence = Num (85 / 100), maxIterations = 8,
      temperature = Num (7 / 10)\<rparr>"

text \<open>The default argument \<^verbatim>\<open>config = {}\<close>.\<close>

definition emptyConfig :: PartialThinkingConfig where
  "emptyConfig =
     \<lparr>maxDepth_opt = None, minConfidence_opt = None, maxIterations_opt = None,
      temperature_opt = None\<rparr>"

text \<open>
  The spread \<^verbatim>\<open>{ ...DEFAULT_CONFIG, ...config }\<close> that both entry points bind to
  \<^verbatim>\<open>finalConfig\<close>: a field of \<open>config\<close> wins over the default.
\<close>

definition finalConfig :: "PartialThinkingConfig \<Rightarrow> ThinkingConfig" where
  "finalConfig config =
     \<lparr>maxDepth = (case maxDepth_opt config of Some v \<Rightarrow> v | None \<Rightarrow> maxDepth DEFAULT_CONFIG),
      minConfidence =
        (case minConfidence_opt config of Some v \<Rightarrow> v | None \<Rightarrow> minConfidence DEFAULT_CONFIG),
      maxIterations =
        (case maxIterations_opt config of Some v \<Rightarrow> v | None \<Rightarrow> maxIterations DEFAULT_CONFIG),
      temperature =
        (case temperature_opt config of Some v \<Rightarrow> v | None \<Rightarrow> temperature DEFAULT_CONFIG)\<rparr>"

subsection \<open>compressInsights\<close>

definition keywords_list :: "string list" where
  "keywords_list =
     [''therefore'', ''conclusion'', ''solution'', ''approach'', ''error'', ''issue'',
      ''fixed'', ''implement'']"

definition compressInsights :: "string \<Rightarrow> string" where
  "compressInsights text =
     (let lines = filter (\<lambda>l. trim l \<noteq> []) (split_str text)
      in take 500
           (join_str
              (filter (\<lambda>line. list_ex (\<lambda>kw. includes_str (toLowerCase line) kw) keywords_list)
                 lines)))"

subsection \<open>generateThinkingPrompt\<close>

definition generateThinkingPrompt ::
  "(number \<Rightarrow> string) \<Rightarrow> string \<Rightarrow> ThinkingState \<Rightarrow> ThinkingConfig \<Rightarrow> string" where
  "generateThinkingPrompt numberToString originalTask state config =
     (if depth state = 0 then
        ''Analyze task: '' @ [dq] @ take 200 originalTask @ [dq, nl] @
        ''Provide: [approach][potential_issues][confidence_0-1]'' @ [nl] @
        ''Format: Single paragraph, minimal words.''
      else
        (let previousInsights = compressInsights (lastResult state)
         in ''Refine solution (depth '' @ numberToString (Num (of_int (depth state))) @ ''/'' @
            numberToString (Num (of_int (maxDepth config))) @ ''):'' @ [nl] @
            ''Task: '' @ [dq] @ take 100 originalTask @ ''...'' @ [dq, nl] @
            ''Previous: '' @ [dq] @ previousInsights @ [dq, nl] @
            ''Current confidence: '' @ numberToString (confidence state) @ [nl] @
            ''Provide: [refinement][what_to_improve][new_confidence]'' @ [nl] @
            ''Format: Concise, action-oriented.''))"

subsection \<open>isProductionReady\<close>

definition prodIndicators :: "string list" where
  "prodIndicators =
     [''implement'', ''complete'', ''final'', ''solution'', ''ready'', ''tested'', ''handle'',
      ''error'', ''edge case'', ''deploy'']"

definition isProductionReady :: "string \<Rightarrow> number \<Rightarrow> bool" where
  "isProductionReady result conf =
     (let hasProdKeywords = list_ex (\<lambda>kw. includes_str (toLowerCase result) kw) prodIndicators
      in num_ge conf (Num (85 / 100)) \<and> hasProdKeywords \<and> length result > 50)"

subsection \<open>recursiveThink\<close>

record ThinkResult =
  result :: string
  result_iterations :: int
  result_confidence :: number

definition initialState :: ThinkingState where
  "initialState =
     \<lparr>depth = 0, confidence = Num 0, iterations = [], lastResult = [], isComplete = False\<rparr>"

definition recursiveThink ::
  "(number \<Rightarrow> string) \<Rightarrow> string \<Rightarrow> PartialThinkingConfig \<Rightarrow> ThinkResult" where
  "recursiveThink numberToString task config =
     \<lparr>result = generateThinkingPrompt numberToString task initialState (finalConfig config),
      result_iterations = 0, result_confidence = Num 0\<rparr>"

subsection \<open>processIteration\<close>

text \<open>
  The pattern \<^verbatim>\<open>/confidence[:\s]*([0-9.]+)/i\<close>. Without the \<^verbatim>\<open>u\<close> flag, ignoring case
  compares the canonical (upper-case) forms of single code units, and a code unit from
  128 on never counts as equal to an ASCII one: a letter of \<^verbatim>\<open>confidence\<close> matches its
  two ASCII forms only. \<open>canonicalize\<close> is that canonical form on the code units that
  can match the pattern's letters; the two character classes hold no letters.
\<close>

definition canonicalize :: "char \<Rightarrow> char" where
  "canonicalize c =
     (let n = charCode c in if 97 \<le> n \<and> n \<le> 122 then char_of (n - 32) else c)"

definition isSeparator :: "char \<Rightarrow> bool" where
  "isSeparator c = (c = CHR '':'' \<or> isWhiteSpace c)"

definition isNumberChar :: "char \<Rightarrow> bool" where
  "isNumberChar c = (isDigit c \<or> c = CHR ''.'')"

text \<open>
  The literal part of a pattern, matched at the head of the input ignoring case; the
  result is the input that remains.
\<close>

fun matchLiteral :: "string \<Rightarrow> string \<Rightarrow> string option" where
  "matchLiteral [] s = Some s"
| "matchLiteral (p # ps) [] = None"
| "matchLiteral (p # ps) (c # cs) =
     (if canonicalize c = canonicalize p then matchLiteral ps cs else None)"

text \<open>
  A match that starts at the head of \<open>s\<close>, with its capture group. Both quantifiers are
  greedy and the two character classes are disjoint, so the separators are the longest
  run of separators and the group is the longest run of digits and dots after them:
  giving a separator back cannot make \<^verbatim>\<open>[0-9.]+\<close> match.
\<close>

definition matchHere :: "string \<Rightarrow> string option" where
  "matchHere s =
     (case matchLiteral ''confidence'' s of
        None \<Rightarrow> None
      | Some rest \<Rightarrow>
          (let grp = takeWhile isNumberChar (dropWhile isSeparator rest)
           in if grp = [] then None else Some grp))"

text \<open>
  \<^verbatim>\<open>agentResponse.match(...)\<close> without the \<^verbatim>\<open>g\<close> flag: the match at the leftmost
  position that has one; the value is its capture group, \<open>None\<close> is \<^verbatim>\<open>null\<close>.
\<close>

fun confidenceMatch :: "string \<Rightarrow> string option" where
  "confidenceMatch [] = None"
| "confidenceMatch (c # cs) =
     (case matchHere (c # cs) of Some grp \<Rightarrow> Some grp | None \<Rightarrow> confidenceMatch cs)"

text \<open>
  The first two statements of \<^verbatim>\<open>processIteration\<close>: the capture group of the match
  goes through \<^verbatim>\<open>parseFloat\<close>, and without a match the confidence is 0.5.
\<close>

definition parseConfidence :: "string \<Rightarrow> number" where
  "parseConfidence agentResponse =
     (case confidenceMatch agentResponse of Some grp \<Rightarrow> parseFloat grp | None \<Rightarrow> Num (1 / 2))"

text \<open>
  The result of \<^verbatim>\<open>processIteration\<close>; \<open>None\<close> is the \<^verbatim>\<open>null\<close> prompt. In the
  function, \<open>cfg\<close> is the source's \<^verbatim>\<open>finalConfig\<close> and \<open>conf\<close> its \<^verbatim>\<open>confidence\<close>.
\<close>

record IterationResult =
  nextPrompt :: "string option"
  state :: ThinkingState

definition processIteration ::
  "(number \<Rightarrow> string) \<Rightarrow> string \<Rightarrow> string \<Rightarrow> ThinkingState \<Rightarrow> PartialThinkingConfig
     \<Rightarrow> IterationResult" where
  "processIteration numberToString originalTask agentResponse previousState config =
     (let cfg = finalConfig config;
          conf = parseConfidence agentResponse;
          newState =
            \<lparr>depth = depth previousState + 1, confidence = conf,
             iterations = iterations previousState @ [agentResponse],
             lastResult = agentResponse, isComplete = False\<rparr>
      in if isProductionReady agentResponse conf \<or> maxDepth cfg \<le> depth newState \<or>
            num_ge conf (minConfidence cfg)
         then \<lparr>nextPrompt = None, state = newState\<lparr>isComplete := True\<rparr>\<rparr>
         else \<lparr>nextPrompt = Some (generateThinkingPrompt numberToString originalTask newState cfg),
               state = newState\<rparr>)"

subsection \<open>Successive calls\<close>

text \<open>
  The caller's loop: one call of \<^verbatim>\<open>processIteration\<close> per entry (task, response,
  config), each on the state the previous call returned. The engine does not refuse a
  call on a completed state, and neither does the loop.
\<close>

fun iterate_all ::
  "(number \<Rightarrow> string) \<Rightarrow> (string \<times> string \<times> PartialThinkingConfig) list \<Rightarrow> ThinkingState
     \<Rightarrow> ThinkingState" where
  "iterate_all f [] s = s"
| "iterate_all f ((t, r, c) # calls) s =
     iterate_all f calls (state (processIteration f t r s c))"

subsection \<open>A number-to-text conversion for the examples\<close>

text \<open>
  \<open>showNumber\<close> writes \<open>NaN\<close> as \<^verbatim>\<open>NaN\<close> and a rational in positional decimal
  notation, with at most 21 fraction digits and without trailing zeros. On the decimals
  of at most 15 significant digits from \<open>0.000001\<close> up to \<open>10\<^sup>2\<^sup>1\<close>, and on 0, this is
  the text \<^verbatim>\<open>Number::toString\<close> produces. It instantiates \<open>numberToString\<close> in the
  examples only; no theorem about the program depends on it.
\<close>

fun showNat :: "nat \<Rightarrow> string" where
  "showNat n =
     (if n < 10 then [char_of (48 + n)] else showNat (n div 10) @ [char_of (48 + n mod 10)])"

fun fractionDigits :: "nat \<Rightarrow> rat \<Rightarrow> string" where
  "fractionDigits 0 q = []"
| "fractionDigits (Suc k) q =
     (if q = 0 then []
      else (let d = nat \<lfloor>q * 10\<rfloor>
            in char_of (48 + d) # fractionDigits k (q * 10 - of_nat d)))"

definition showNumber :: "number \<Rightarrow> string" where
  "showNumber x =
     (case x of
        NaN \<Rightarrow> ''NaN''
      | Num q \<Rightarrow>
          (let a = \<bar>q\<bar>; n = nat \<lfloor>a\<rfloor>; fs = fractionDigits 21 (a - of_nat n)
           in (if q < 0 then ''-'' else []) @ showNat n @
              (if fs = [] then [] else ''.'' @ fs)))"

declare showNat.simps [simp del]

subsection \<open>The compressor as the specification words it\<close>

text \<open>
  The reference for \<^verbatim>\<open>compress\<close>, written from the specification and not from the
  code: split the text into lines, discard the lines that are blank or hold white space
  only, keep exactly the lines whose lower-cased content contains one of the eight
  keywords, join what is kept with newlines, truncate to 500 characters.
\<close>

definition spec_whitespace_only :: "string \<Rightarrow> bool" where
  "spec_whitespace_only l = (\<forall>c \<in> set l. isWhiteSpace c)"

definition spec_has_keyword :: "string \<Rightarrow> bool" where
  "spec_has_keyword l =
     (\<exists>kw \<in> {''therefore'', ''conclusion'', ''solution'', ''approach'', ''error'', ''issue'',
              ''fixed'', ''implement''}.
        \<exists>pre post. toLowerCase l = pre @ kw @ post)"

definition compress_spec :: "string \<Rightarrow> string" where
  "compress_spec text =
     take 500
       (join_str
          (filter (\<lambda>l. \<not> spec_whitespace_only l \<and> spec_has_keyword l) (split_str text)))"

section \<open>Facts about the string functions\<close>

lemma includes_str_sublist: "includes_str s kw = sublist kw s"
  by (induction s) (simp_all add: sublist_Cons_right)

lemma includes_str_iff: "includes_str s kw \<longleftrightarrow> (\<exists>pre post. s = pre @ kw @ post)"
  by (simp add: includes_str_sublist sublist_def)

lemma includes_strI: "s = pre @ kw @ post \<Longrightarrow> includes_str s kw"
  by (auto simp: includes_str_iff)

lemma all_dropWhile: "(\<forall>x \<in> set (dropWhile P l). P x) \<longleftrightarrow> (\<forall>x \<in> set l. P x)"
  by (induction l) auto

lemma trim_empty_iff: "trim l = [] \<longleftrightarrow> (\<forall>c \<in> set l. isWhiteSpace c)"
  by (simp add: trim_def all_dropWhile)

text \<open>
  \<open>split_str\<close> yields the lines of a text: at least one piece, no piece holds a newline,
  and joining the pieces with newlines gives the text back; no other list of lines does.
\<close>

lemma split_str_nonempty: "split_str s \<noteq> []"
  by (induction s) (auto split: list.splits)

lemma join_split: "join_str (split_str s) = s"
proof (induction s)
  case Nil
  then show ?case by simp
next
  case (Cons c s)
  obtain l ls where "split_str s = l # ls"
    using split_str_nonempty [of s] by (cases "split_str s") auto
  with Cons show ?case by (cases ls) auto
qed

lemma split_str_no_newline: "l \<in> set (split_str s) \<Longrightarrow> nl \<notin> set l"
proof (induction s arbitrary: l)
  case Nil
  then show ?case by simp
next
  case (Cons c s)
  then show ?case
    by (cases "split_str s") (auto split: if_splits)
qed

lemma split_append_line: "nl \<notin> set l \<Longrightarrow> split_str (l @ nl # s) = l # split_str s"
  by (induction l) auto

lemma split_line: "nl \<notin> set l \<Longrightarrow> split_str l = [l]"
  by (induction l) auto

lemma split_join:
  "ls \<noteq> [] \<Longrightarrow> \<forall>l \<in> set ls. nl \<notin> set l \<Longrightarrow> split_str (join_str ls) = ls"
proof (induction ls rule: join_str.induct)
  case 1
  then show ?case by simp
next
  case (2 l)
  then show ?case by (simp add: split_line)
next
  case (3 l v va)
  then show ?case by (simp add: split_append_line)
qed

text \<open>Every line is a contiguous block of the text.\<close>

lemma first_line_prefix: "split_str s = l # ls \<Longrightarrow> prefix l s"
proof (induction s arbitrary: l ls)
  case Nil
  then show ?case by simp
next
  case (Cons c s)
  obtain l0 ls0 where sp: "split_str s = l0 # ls0"
    using split_str_nonempty [of s] by (cases "split_str s") auto
  with Cons.IH have "prefix l0 s"
    by simp
  with Cons.prems sp show ?case
    by (auto split: if_splits)
qed

lemma line_sublist: "l \<in> set (split_str s) \<Longrightarrow> sublist l s"
proof (induction s arbitrary: l)
  case Nil
  then show ?case by simp
next
  case (Cons c s)
  obtain l0 ls0 where sp: "split_str s = l0 # ls0"
    using split_str_nonempty [of s] by (cases "split_str s") auto
  show ?case
  proof (cases "l \<in> set (split_str s)")
    case True
    with Cons.IH have "sublist l s"
      by simp
    then show ?thesis
      by (simp add: sublist_Cons_right)
  next
    case False
    with Cons.prems sp have "l = [] \<or> l = c # l0"
      by (auto split: if_splits)
    moreover from sp have "prefix (c # l0) (c # s)"
      by (simp add: first_line_prefix)
    ultimately show ?thesis
      by (auto simp: sublist_Cons_right)
  qed
qed

section \<open>Properties of the iteration processor\<close>

subsection \<open>What one call returns\<close>

lemma finalConfig_empty: "finalConfig emptyConfig = DEFAULT_CONFIG"
  by (simp add: finalConfig_def emptyConfig_def)

lemma processIteration_isComplete:
  "isComplete (state (processIteration f t r s c)) =
     (isProductionReady r (parseConfidence r) \<or> maxDepth (finalConfig c) \<le> depth s + 1 \<or>
      num_ge (parseConfidence r) (minConfidence (finalConfig c)))"
  by (simp add: processIteration_def Let_def)

lemma processIteration_nextPrompt:
  "nextPrompt (processIteration f t r s c) =
     (if isComplete (state (processIteration f t r s c)) then None
      else Some (generateThinkingPrompt f t
             \<lparr>depth = depth s + 1, confidence = parseConfidence r,
              iterations = iterations s @ [r], lastResult = r, isComplete = False\<rparr>
             (finalConfig c)))"
  by (simp add: processIteration_def Let_def)

lemma processIteration_confidence:
  "confidence (state (processIteration f t r s c)) = parseConfidence r"
  by (simp add: processIteration_def Let_def)

lemma processIteration_depth: "depth (state (processIteration f t r s c)) = depth s + 1"
  by (simp add: processIteration_def Let_def)

lemma processIteration_iterations:
  "iterations (state (processIteration f t r s c)) = iterations s @ [r]"
  by (simp add: processIteration_def Let_def)

lemma generateThinkingPrompt_nonempty: "generateThinkingPrompt f t s c \<noteq> []"
  by (simp add: generateThinkingPrompt_def Let_def)

lemma iterate_all_depth: "depth (iterate_all f calls s) = depth s + int (length calls)"
  by (induction f calls s rule: iterate_all.induct) (simp_all add: processIteration_depth)

lemma iterate_all_iterations:
  "length (iterations (iterate_all f calls s)) = length (iterations s) + length calls"
  by (induction f calls s rule: iterate_all.induct)
    (simp_all add: processIteration_iterations)

lemma isProductionReady_needs_confidence:
  "\<not> num_ge c (Num (85 / 100)) \<Longrightarrow> \<not> isProductionReady r c"
  by (simp add: isProductionReady_def)

lemma isProductionReady_needs_length: "length r \<le> 50 \<Longrightarrow> \<not> isProductionReady r c"
  by (simp add: isProductionReady_def)

subsection \<open>The responses of the examples\<close>

lemma unsure_confidence:
  "parseConfidence ''Still unsure about the design, confidence: 0.5'' = Num (1 / 2)"
  by code_simp

lemma express_confidence: "parseConfidence ''Use Express, confidence: 0.9'' = Num (9 / 10)"
  by code_simp

lemma router_no_match: "confidenceMatch ''I will use Express and a router.'' = None"
  by code_simp

lemma scenario_B_confidence:
  "parseConfidence ''I will use Express and handle errors, confidence: 0.6'' = Num (6 / 10)"
  by code_simp

text \<open>Scenario B in full: the state and the prompt the first call returns.\<close>

lemma scenario_B:
  "processIteration showNumber ''Build a REST API''
     ''I will use Express and handle errors, confidence: 0.6'' initialState emptyConfig =
   \<lparr>nextPrompt = Some
      (''Refine solution (depth 1/5):'' @ [nl] @
       ''Task: '' @ [dq] @ ''Build a REST API...'' @ [dq, nl] @
       ''Previous: '' @ [dq] @ ''I will use Express and handle errors, confidence: 0.6'' @
       [dq, nl] @
       ''Current confidence: 0.6'' @ [nl] @
       ''Provide: [refinement][what_to_improve][new_confidence]'' @ [nl] @
       ''Format: Concise, action-oriented.''),
    state = \<lparr>depth = 1, confidence = Num (6 / 10),
      iterations = [''I will use Express and handle errors, confidence: 0.6''],
      lastResult = ''I will use Express and handle errors, confidence: 0.6'',
      isComplete = False\<rparr>\<rparr>"
  by code_simp

lemma scenario_C_confidence:
  "parseConfidence
     ''Final implemented solution, fully tested and ready to deploy, confidence: 0.9'' =
   Num (9 / 10)"
  by code_simp

lemma plan_no_match: "confidenceMatch ''Plan is ready. '' = None"
  by code_simp

lemma capital_word: "matchLiteral ''confidence'' ''Confidence'' = Some []"
  by code_simp

lemma plan_classes:
  "\<forall>c \<in> set '' : ''. isSeparator c"
  "\<forall>c \<in> set ''0.92''. isNumberChar c"
  "'' for now'' = [] \<or> \<not> isNumberChar (hd '' for now'')"
  by code_simp+

lemma plan_digit: "isDigit (hd ''0.92'')"
  by code_simp

lemma two_tokens_confidence:
  "parseConfidence ''confidence: 0.5, then confidence: 0.92'' = Num (1 / 2)"
  by code_simp

lemma two_tokens_includes:
  "includes_str ''confidence: 0.5, then confidence: 0.92'' ''confidence: 0.92''"
  by code_simp

lemma sentence_match: "confidenceMatch ''I have high confidence.'' = Some ''.''"
  by code_simp

lemma parseFloat_dot: "parseFloat ''.'' = NaN"
  by code_simp

lemma sentence_confidence: "parseConfidence ''I have high confidence.'' = NaN"
  by (simp only: parseConfidence_def sentence_match option.case parseFloat_dot)

lemma sentence_no_digit: "filter isDigit ''I have high confidence.'' = []"
  by code_simp

lemma scenario_C_ready:
  "isProductionReady
     ''Final implemented solution, fully tested and ready to deploy, confidence: 0.9''
     (Num (9 / 10))"
  by code_simp

lemma notes_compressed:
  "compressInsights
     (''The approach is a router'' @ [nl] @ ''   '' @ [nl] @ ''nothing here'' @ [nl] @
      ''Fixed the ISSUE'') =
   ''The approach is a router'' @ [nl] @ ''Fixed the ISSUE''"
  by code_simp

lemma plain_split:
  "split_str (''nothing here'' @ [nl] @ ''at all'') = [''nothing here'', ''at all'']"
  by code_simp

lemma plain_no_keyword:
  "\<not> list_ex (\<lambda>kw. includes_str (toLowerCase ''nothing here'') kw) keywords_list"
  "\<not> list_ex (\<lambda>kw. includes_str (toLowerCase ''at all'') kw) keywords_list"
  by code_simp+

subsection \<open>The depth limit\<close>

text \<open>
  Claim C1. Whenever the depth of the new state, \<open>depth previousState + 1\<close>, reaches the
  effective \<open>maxDepth\<close>, and so in particular for every previous state with
  \<open>depth \<ge> maxDepth\<close>, \<open>processIteration\<close> returns a state with \<open>isComplete = true\<close>
  and \<open>nextPrompt = null\<close>, whatever the task, the response and the confidence parsed
  from it are.
\<close>

theorem depth_limit_completes:
  assumes "maxDepth (finalConfig config) \<le> depth previousState + 1"
  shows "isComplete (state (processIteration f t r previousState config)) \<and>
         nextPrompt (processIteration f t r previousState config) = None"
  using assms by (simp add: processIteration_isComplete processIteration_nextPrompt)

text \<open>
  The witness runs the two cases of the claim with the default configuration
  (\<open>maxDepth = 5\<close>) and a response of confidence 0.5 that is not production ready: a
  previous state of depth 5, and Scenario D, where the fifth call in a row completes and
  the fourth does not.
\<close>

theorem depth_limit_completes_witness:
  "maxDepth (finalConfig emptyConfig) \<le> depth (initialState\<lparr>depth := 5\<rparr>) + 1 \<and>
   isComplete (state (processIteration showNumber ''Build a REST API''
     ''Still unsure about the design, confidence: 0.5'' (initialState\<lparr>depth := 5\<rparr>)
     emptyConfig)) \<and>
   nextPrompt (processIteration showNumber ''Build a REST API''
     ''Still unsure about the design, confidence: 0.5'' (initialState\<lparr>depth := 5\<rparr>)
     emptyConfig) = None \<and>
   \<not> isComplete (iterate_all showNumber
     (replicate 4 (''Build a REST API'', ''Still unsure about the design, confidence: 0.5'',
        emptyConfig)) initialState) \<and>
   isComplete (state (processIteration showNumber ''Build a REST API''
     ''Still unsure about the design, confidence: 0.5''
     (iterate_all showNumber
        (replicate 4 (''Build a REST API'', ''Still unsure about the design, confidence: 0.5'',
           emptyConfig)) initialState)
     emptyConfig))"
proof -
  let ?low = "''Still unsure about the design, confidence: 0.5''"
  let ?s4 = "iterate_all showNumber (replicate 4 (''Build a REST API'', ?low, emptyConfig))
    initialState"
  have h5: "maxDepth (finalConfig emptyConfig) \<le> depth (initialState\<lparr>depth := 5\<rparr>) + 1"
    by (simp add: finalConfig_empty DEFAULT_CONFIG_def initialState_def)
  have h4: "maxDepth (finalConfig emptyConfig) \<le> depth ?s4 + 1"
    by (simp add: finalConfig_empty DEFAULT_CONFIG_def initialState_def iterate_all_depth)
  have open4: "\<not> isComplete ?s4"
    by (simp add: eval_nat_numeral processIteration_isComplete processIteration_depth
        unsure_confidence isProductionReady_needs_confidence finalConfig_empty
        DEFAULT_CONFIG_def initialState_def)
  from h5 open4
    depth_limit_completes [OF h5, of showNumber "''Build a REST API''" ?low]
    depth_limit_completes [OF h4, of showNumber "''Build a REST API''" ?low]
  show ?thesis by simp
qed

subsection \<open>The confidence threshold\<close>

text \<open>
  Claim C2. For every response whose parsed confidence is at least the effective
  \<open>minConfidence\<close>, \<open>processIteration\<close> returns a state with \<open>isComplete = true\<close> and
  \<open>nextPrompt = null\<close>; neither the depth nor the readiness heuristic is asked.
\<close>

theorem confidence_threshold_completes:
  assumes "num_ge (parseConfidence r) (minConfidence (finalConfig config))"
  shows "isComplete (state (processIteration f t r previousState config)) \<and>
         nextPrompt (processIteration f t r previousState config) = None"
  using assms by (simp add: processIteration_isComplete processIteration_nextPrompt)

text \<open>
  The witness: a first response of 28 code units (too short to be production ready)
  that reports confidence 0.9, under the default threshold 0.85.
\<close>

theorem confidence_threshold_completes_witness:
  "num_ge (parseConfidence ''Use Express, confidence: 0.9'')
     (minConfidence (finalConfig emptyConfig)) \<and>
   \<not> isProductionReady ''Use Express, confidence: 0.9''
     (parseConfidence ''Use Express, confidence: 0.9'') \<and>
   isComplete (state (processIteration showNumber ''Build a REST API''
     ''Use Express, confidence: 0.9'' initialState emptyConfig)) \<and>
   nextPrompt (processIteration showNumber ''Build a REST API''
     ''Use Express, confidence: 0.9'' initialState emptyConfig) = None"
proof -
  have h: "num_ge (parseConfidence ''Use Express, confidence: 0.9'')
    (minConfidence (finalConfig emptyConfig))"
    by (simp add: express_confidence finalConfig_empty DEFAULT_CONFIG_def)
  have n: "\<not> isProductionReady ''Use Express, confidence: 0.9''
    (parseConfidence ''Use Express, confidence: 0.9'')"
    by (simp add: isProductionReady_needs_length)
  from h n confidence_threshold_completes [OF h] show ?thesis by simp
qed

subsection \<open>The default confidence under a low threshold\<close>

text \<open>
  When the pattern finds no match in the response, the parsed confidence is the default
  0.5; under a configuration whose effective \<open>minConfidence\<close> is at most 0.5 it meets
  the threshold, and \<open>processIteration\<close> completes the session on that very call,
  whatever the depth, the task and the rest of the response are.
\<close>

lemma default_confidence_completes:
  assumes "num_ge (Num (1 / 2)) (minConfidence (finalConfig config))"
    and "confidenceMatch r = None"
  shows "parseConfidence r = Num (1 / 2) \<and>
         isComplete (state (processIteration f t r previousState config)) \<and>
         nextPrompt (processIteration f t r previousState config) = None"
proof -
  from assms(2) have "parseConfidence r = Num (1 / 2)"
    by (simp add: parseConfidence_def)
  with assms(1) show ?thesis
    by (simp add: processIteration_isComplete processIteration_nextPrompt)
qed

text \<open>
  For example the first call of a session whose configuration sets
  \<open>minConfidence = 0.5\<close>, with a response that does not mention confidence.
\<close>

lemma default_confidence_completes_example:
  "isComplete (state (processIteration showNumber ''Build a REST API''
     ''I will use Express and a router.'' initialState
     (emptyConfig\<lparr>minConfidence_opt := Some (Num (1 / 2))\<rparr>))) \<and>
   nextPrompt (processIteration showNumber ''Build a REST API''
     ''I will use Express and a router.'' initialState
     (emptyConfig\<lparr>minConfidence_opt := Some (Num (1 / 2))\<rparr>)) = None"
proof -
  have h: "num_ge (Num (1 / 2))
    (minConfidence (finalConfig (emptyConfig\<lparr>minConfidence_opt := Some (Num (1 / 2))\<rparr>)))"
    by (simp add: finalConfig_def emptyConfig_def)
  from default_confidence_completes [OF h router_no_match]
  show ?thesis by simp
qed

text \<open>
  Claim C10. For every configuration whose effective \<open>minConfidence\<close> is at most 0.5 and
  every response that contains no \<open>confidence\<close> token followed by a number,
  \<open>processIteration\<close> is to complete the session on that very call, because the parsed
  confidence defaults to 0.5. The code does so when the pattern finds no match
  (\<open>default_confidence_completes\<close>), but the pattern takes a lone dot for the number: the
  response \<open>I have high confidence.\<close> holds no digit at all, the pattern matches
  \<open>confidence.\<close> and captures the full stop, \<^verbatim>\<open>parseFloat\<close> returns \<^verbatim>\<open>NaN\<close> instead of
  the default, no comparison with \<^verbatim>\<open>NaN\<close> holds, and under \<open>minConfidence = 0.5\<close> the
  first call leaves the session open and returns a next prompt.
\<close>

theorem default_confidence_missed:
  "filter isDigit ''I have high confidence.'' = [] \<and>
   confidenceMatch ''I have high confidence.'' = Some ''.'' \<and>
   parseConfidence ''I have high confidence.'' = NaN \<and>
   num_ge (Num (1 / 2))
     (minConfidence (finalConfig (emptyConfig\<lparr>minConfidence_opt := Some (Num (1 / 2))\<rparr>))) \<and>
   \<not> isComplete (state (processIteration showNumber ''Build a REST API''
     ''I have high confidence.'' initialState
     (emptyConfig\<lparr>minConfidence_opt := Some (Num (1 / 2))\<rparr>))) \<and>
   nextPrompt (processIteration showNumber ''Build a REST API''
     ''I have high confidence.'' initialState
     (emptyConfig\<lparr>minConfidence_opt := Some (Num (1 / 2))\<rparr>)) \<noteq> None"
proof -
  let ?c = "emptyConfig\<lparr>minConfidence_opt := Some (Num (1 / 2))\<rparr>"
  let ?res = "processIteration showNumber ''Build a REST API'' ''I have high confidence.''
    initialState ?c"
  have low: "num_ge (Num (1 / 2)) (minConfidence (finalConfig ?c))"
    by (simp add: finalConfig_def emptyConfig_def)
  have "isComplete (state ?res) =
    (isProductionReady ''I have high confidence.'' NaN \<or>
     maxDepth (finalConfig ?c) \<le> depth initialState + 1 \<or>
     num_ge NaN (minConfidence (finalConfig ?c)))"
    by (simp only: processIteration_isComplete sentence_confidence)
  also have "\<dots> = False"
    by (simp add: isProductionReady_needs_confidence finalConfig_def emptyConfig_def
        DEFAULT_CONFIG_def initialState_def)
  finally have unfinished: "\<not> isComplete (state ?res)"
    by simp
  then have prompt: "nextPrompt ?res \<noteq> None"
    by (simp only: processIteration_nextPrompt if_False) simp
  show ?thesis
    by (intro conjI sentence_no_digit sentence_match sentence_confidence low unfinished prompt)
qed

subsection \<open>Depth accounting\<close>

text \<open>
  Claim C5. A call of \<open>processIteration\<close> increases \<open>depth\<close> by exactly 1 and appends
  exactly one entry, the response, to \<open>iterations\<close>. Hence the invariant
  \<open>iterations.length = depth\<close>, which holds in the initial state, is preserved by the
  call, and after \<open>N\<close> successive calls from the initial state \<open>depth = N\<close> and
  \<open>iterations.length = N\<close>. The source adds 1 to a double, which is exact for the counts
  from 0 up to \<open>2\<^sup>5\<^sup>3\<close>: what is said of the depth after one call is said of the states
  whose depth is a count below \<open>2\<^sup>5\<^sup>3\<close>.
\<close>

theorem depth_accounting:
  "(0 \<le> depth s \<and> depth s < 2 ^ 53 \<longrightarrow>
      depth (state (processIteration f t r s c)) = depth s + 1) \<and>
   iterations (state (processIteration f t r s c)) = iterations s @ [r] \<and>
   (int (length (iterations s)) = depth s \<and> depth s < 2 ^ 53 \<longrightarrow>
      int (length (iterations (state (processIteration f t r s c)))) =
        depth (state (processIteration f t r s c))) \<and>
   int (length (iterations initialState)) = depth initialState \<and>
   depth (iterate_all f calls initialState) = int (length calls) \<and>
   length (iterations (iterate_all f calls initialState)) = length calls"
  by (simp add: processIteration_depth processIteration_iterations iterate_all_depth
      iterate_all_iterations initialState_def)

text \<open>
  The witness: a state of depth 2 with two entries, and three calls from the initial
  state, the second of which completes the session (confidence 0.9).
\<close>

theorem depth_accounting_witness:
  "0 \<le> depth \<lparr>depth = 2, confidence = Num (1 / 2), iterations = [''a'', ''b''],
      lastResult = ''b'', isComplete = False\<rparr> \<and>
   depth \<lparr>depth = 2, confidence = Num (1 / 2), iterations = [''a'', ''b''],
      lastResult = ''b'', isComplete = False\<rparr> < 2 ^ 53 \<and>
   int (length (iterations \<lparr>depth = 2, confidence = Num (1 / 2), iterations = [''a'', ''b''],
      lastResult = ''b'', isComplete = False\<rparr>)) =
     depth \<lparr>depth = 2, confidence = Num (1 / 2), iterations = [''a'', ''b''],
      lastResult = ''b'', isComplete = False\<rparr> \<and>
   depth (state (processIteration showNumber ''Build a REST API'' ''c''
     \<lparr>depth = 2, confidence = Num (1 / 2), iterations = [''a'', ''b''],
      lastResult = ''b'', isComplete = False\<rparr> emptyConfig)) = 3 \<and>
   iterations (state (processIteration showNumber ''Build a REST API'' ''c''
     \<lparr>depth = 2, confidence = Num (1 / 2), iterations = [''a'', ''b''],
      lastResult = ''b'', isComplete = False\<rparr> emptyConfig)) = [''a'', ''b'', ''c''] \<and>
   int (length (iterations (state (processIteration showNumber ''Build a REST API'' ''c''
     \<lparr>depth = 2, confidence = Num (1 / 2), iterations = [''a'', ''b''],
      lastResult = ''b'', isComplete = False\<rparr> emptyConfig)))) =
     depth (state (processIteration showNumber ''Build a REST API'' ''c''
     \<lparr>depth = 2, confidence = Num (1 / 2), iterations = [''a'', ''b''],
      lastResult = ''b'', isComplete = False\<rparr> emptyConfig)) \<and>
   depth (iterate_all showNumber
     [(''Build a REST API'', ''Still unsure about the design, confidence: 0.5'', emptyConfig),
      (''Build a REST API'', ''Use Express, confidence: 0.9'', emptyConfig),
      (''Build a REST API'', ''I will use Express and a router.'', emptyConfig)]
     initialState) = 3 \<and>
   length (iterations (iterate_all showNumber
     [(''Build a REST API'', ''Still unsure about the design, confidence: 0.5'', emptyConfig),
      (''Build a REST API'', ''Use Express, confidence: 0.9'', emptyConfig),
      (''Build a REST API'', ''I will use Express and a router.'', emptyConfig)]
     initialState)) = 3"
proof -
  let ?s = "\<lparr>depth = 2, confidence = Num (1 / 2), iterations = [''a'', ''b''],
    lastResult = ''b'', isComplete = False\<rparr>"
  let ?calls =
    "[(''Build a REST API'', ''Still unsure about the design, confidence: 0.5'', emptyConfig),
      (''Build a REST API'', ''Use Express, confidence: 0.9'', emptyConfig),
      (''Build a REST API'', ''I will use Express and a router.'', emptyConfig)]"
  note inst = depth_accounting [of ?s showNumber "''Build a REST API''" "''c''" emptyConfig ?calls]
  have range: "0 \<le> depth ?s \<and> depth ?s < 2 ^ 53"
    by simp
  have inv: "int (length (iterations ?s)) = depth ?s \<and> depth ?s < 2 ^ 53"
    by simp
  from inst [THEN conjunct1, THEN mp, OF range]
  have d: "depth (state (processIteration showNumber ''Build a REST API'' ''c'' ?s
    emptyConfig)) = 3"
    by simp
  from inst [THEN conjunct2, THEN conjunct2, THEN conjunct1, THEN mp, OF inv]
  have i: "int (length (iterations (state (processIteration showNumber ''Build a REST API''
    ''c'' ?s emptyConfig)))) =
    depth (state (processIteration showNumber ''Build a REST API'' ''c'' ?s emptyConfig))" .
  from range inv d i inst [THEN conjunct2] show ?thesis
    by simp
qed

subsection \<open>The next prompt and completion\<close>

text \<open>
  Claim C6. For every input, \<open>processIteration\<close> returns \<open>nextPrompt = null\<close> if and only
  if the returned state has \<open>isComplete = true\<close>; whenever \<open>isComplete\<close> is false,
  \<open>nextPrompt\<close> is a non-empty string, because the prompt generator returns a non-empty
  string for every task, state and configuration.
\<close>

theorem nextPrompt_null_iff_complete:
  "(nextPrompt (processIteration f t r s c) = None \<longleftrightarrow>
      isComplete (state (processIteration f t r s c))) \<and>
   (\<not> isComplete (state (processIteration f t r s c)) \<longrightarrow>
      (\<exists>p. nextPrompt (processIteration f t r s c) = Some p \<and> p \<noteq> [])) \<and>
   generateThinkingPrompt f t' s' c' \<noteq> []"
  by (simp add: processIteration_nextPrompt generateThinkingPrompt_nonempty)

text \<open>
  The witness is Scenario B: the first response reports confidence 0.6 under the default
  configuration, the session stays open and a prompt comes back.
\<close>

theorem nextPrompt_null_iff_complete_witness:
  "\<not> isComplete (state (processIteration showNumber ''Build a REST API''
      ''I will use Express and handle errors, confidence: 0.6'' initialState emptyConfig)) \<and>
   (\<exists>p. nextPrompt (processIteration showNumber ''Build a REST API''
      ''I will use Express and handle errors, confidence: 0.6'' initialState emptyConfig) =
        Some p \<and> p \<noteq> [])"
proof -
  let ?r = "''I will use Express and handle errors, confidence: 0.6''"
  have h: "\<not> isComplete (state (processIteration showNumber ''Build a REST API'' ?r
    initialState emptyConfig))"
    by (simp add: processIteration_isComplete scenario_B_confidence
        isProductionReady_needs_confidence finalConfig_empty DEFAULT_CONFIG_def
        initialState_def)
  from h nextPrompt_null_iff_complete
    [of showNumber "''Build a REST API''" ?r initialState emptyConfig]
  show ?thesis by blast
qed

subsection \<open>The fields that are not read\<close>

text \<open>
  Claim C9. The results of \<open>processIteration\<close> and of the prompt generator do not depend
  on \<open>maxIterations\<close> and \<open>temperature\<close>: two configurations that agree on \<open>maxDepth\<close> and
  \<open>minConfidence\<close>, and so differ in \<open>maxIterations\<close> and \<open>temperature\<close> at most, give the
  same result on the same task, response and state. So \<open>maxIterations\<close> is no stopping
  condition of its own and \<open>temperature\<close> is unused.
\<close>

theorem maxIterations_temperature_unused:
  assumes "maxDepth_opt c1 = maxDepth_opt c2"
    and "minConfidence_opt c1 = minConfidence_opt c2"
    and "maxDepth k1 = maxDepth k2"
    and "minConfidence k1 = minConfidence k2"
  shows "processIteration f t r s c1 = processIteration f t r s c2 \<and>
         generateThinkingPrompt f t s k1 = generateThinkingPrompt f t s k2 \<and>
         recursiveThink f t c1 = recursiveThink f t c2"
  using assms
  by (simp add: processIteration_def recursiveThink_def generateThinkingPrompt_def
      finalConfig_def Let_def)

text \<open>
  The witness: the default configuration against one with \<open>maxIterations = 1\<close> and
  \<open>temperature = 0\<close>. With \<open>maxIterations = 1\<close> the first call of Scenario B still leaves
  the session open.
\<close>

theorem maxIterations_temperature_unused_witness:
  "processIteration showNumber ''Build a REST API''
     ''I will use Express and handle errors, confidence: 0.6'' initialState emptyConfig =
   processIteration showNumber ''Build a REST API''
     ''I will use Express and handle errors, confidence: 0.6'' initialState
     (emptyConfig\<lparr>maxIterations_opt := Some 1, temperature_opt := Some (Num 0)\<rparr>) \<and>
   generateThinkingPrompt showNumber ''Build a REST API''
     (initialState\<lparr>depth := 1\<rparr>) DEFAULT_CONFIG =
   generateThinkingPrompt showNumber ''Build a REST API''
     (initialState\<lparr>depth := 1\<rparr>) (DEFAULT_CONFIG\<lparr>maxIterations := 1, temperature := Num 0\<rparr>) \<and>
   \<not> isComplete (state (processIteration showNumber ''Build a REST API''
     ''I will use Express and handle errors, confidence: 0.6'' initialState
     (emptyConfig\<lparr>maxIterations_opt := Some 1, temperature_opt := Some (Num 0)\<rparr>)))"
proof -
  let ?r = "''I will use Express and handle errors, confidence: 0.6''"
  let ?c = "emptyConfig\<lparr>maxIterations_opt := Some 1, temperature_opt := Some (Num 0)\<rparr>"
  let ?k = "DEFAULT_CONFIG\<lparr>maxIterations := 1, temperature := Num 0\<rparr>"
  have h1: "maxDepth_opt emptyConfig = maxDepth_opt ?c"
    and h2: "minConfidence_opt emptyConfig = minConfidence_opt ?c"
    and h3: "maxDepth DEFAULT_CONFIG = maxDepth ?k"
    and h4: "minConfidence DEFAULT_CONFIG = minConfidence ?k"
    by simp_all
  have still_open: "\<not> isComplete (state (processIteration showNumber ''Build a REST API'' ?r
    initialState ?c))"
    by (simp add: processIteration_isComplete scenario_B_confidence
        isProductionReady_needs_confidence finalConfig_def emptyConfig_def
        DEFAULT_CONFIG_def initialState_def)
  from still_open maxIterations_temperature_unused [OF h1 h2 h3 h4]
  show ?thesis by simp
qed

section \<open>Properties of the readiness evaluator\<close>

text \<open>
  Claim C3. \<open>isProductionReady(resultText, confidence)\<close> is true if and only if all three
  hold: \<open>confidence \<ge> 0.85\<close>, a constant of the function that no configuration reaches;
  the lower-cased \<open>resultText\<close> contains at least one of the ten substrings implement,
  complete, final, solution, ready, tested, handle, error, edge case, deploy; and
  \<open>resultText\<close> is longer than 50 characters.
\<close>

theorem isProductionReady_iff:
  "isProductionReady resultText conf \<longleftrightarrow>
     num_ge conf (Num (85 / 100)) \<and>
     (\<exists>kw \<in> {''implement'', ''complete'', ''final'', ''solution'', ''ready'', ''tested'',
              ''handle'', ''error'', ''edge case'', ''deploy''}.
        \<exists>pre post. toLowerCase resultText = pre @ kw @ post) \<and>
     length resultText > 50"
  by (simp add: isProductionReady_def prodIndicators_def includes_str_iff Let_def)

text \<open>
  The witness is Scenario C (77 characters, confidence 0.9), with two responses that
  fail one condition each: 43 characters, and confidence 0.84. Under a configured
  \<open>minConfidence\<close> of 0.95 the response of Scenario C still completes the session: the
  evaluator's 0.85 does not move with the configuration.
\<close>

theorem isProductionReady_iff_witness:
  "isProductionReady
     ''Final implemented solution, fully tested and ready to deploy, confidence: 0.9''
     (parseConfidence
        ''Final implemented solution, fully tested and ready to deploy, confidence: 0.9'') \<and>
   (\<exists>kw \<in> {''implement'', ''complete'', ''final'', ''solution'', ''ready'', ''tested'',
            ''handle'', ''error'', ''edge case'', ''deploy''}.
      \<exists>pre post.
        toLowerCase
          ''Final implemented solution, fully tested and ready to deploy, confidence: 0.9'' =
        pre @ kw @ post) \<and>
   \<not> isProductionReady ''Final solution, tested and ready to deploy.'' (Num (9 / 10)) \<and>
   \<not> isProductionReady
     ''Final implemented solution, fully tested and ready to deploy, confidence: 0.9''
     (Num (84 / 100)) \<and>
   isComplete (state (processIteration showNumber ''Build a REST API''
     ''Final implemented solution, fully tested and ready to deploy, confidence: 0.9''
     initialState (emptyConfig\<lparr>minConfidence_opt := Some (Num (95 / 100))\<rparr>)))"
proof -
  let ?r = "''Final implemented solution, fully tested and ready to deploy, confidence: 0.9''"
  have a: "isProductionReady ?r (parseConfidence ?r)"
    by (simp only: scenario_C_confidence scenario_C_ready)
  then have d: "isComplete (state (processIteration showNumber ''Build a REST API'' ?r
    initialState (emptyConfig\<lparr>minConfidence_opt := Some (Num (95 / 100))\<rparr>)))"
    by (simp only: processIteration_isComplete simp_thms)
  have b: "\<not> isProductionReady ''Final solution, tested and ready to deploy.'' (Num (9 / 10))"
    using isProductionReady_iff [of "''Final solution, tested and ready to deploy.''"
        "Num (9 / 10)"]
    by simp
  have c: "\<not> isProductionReady ?r (Num (84 / 100))"
    using isProductionReady_iff [of ?r "Num (84 / 100)"] by simp
  from a b c d isProductionReady_iff [of ?r "parseConfidence ?r"] show ?thesis
    by blast
qed

section \<open>Properties of the insight compressor\<close>

lemma has_keyword_code:
  "list_ex (\<lambda>kw. includes_str (toLowerCase l) kw) keywords_list = spec_has_keyword l"
  by (simp add: keywords_list_def spec_has_keyword_def includes_str_iff)

lemma compress_eq: "compressInsights text = compress_spec text"
  by (simp add: compressInsights_def compress_spec_def Let_def trim_empty_iff has_keyword_code
      spec_whitespace_only_def cong: filter_cong conj_cong)

lemma length_compress: "length (compressInsights text) \<le> 500"
  by (simp add: compressInsights_def Let_def)

lemma compress_no_keyword:
  assumes "\<forall>l \<in> set (split_str text). \<not> spec_has_keyword l"
  shows "compressInsights text = []"
proof -
  have "filter (\<lambda>l. \<not> spec_whitespace_only l \<and> spec_has_keyword l) (split_str text) = []"
    using assms by (simp add: filter_empty_conv)
  then show ?thesis by (simp add: compress_eq compress_spec_def)
qed

lemma keyword_of_line:
  assumes "l \<in> set (split_str text)" and "spec_has_keyword l"
  shows "spec_has_keyword text"
proof -
  from line_sublist [OF assms(1)] obtain a b where t: "text = a @ l @ b"
    unfolding sublist_def by (elim exE)
  from assms(2) obtain kw pre post
    where kw: "kw \<in> {''therefore'', ''conclusion'', ''solution'', ''approach'', ''error'',
      ''issue'', ''fixed'', ''implement''}"
      and l: "toLowerCase l = pre @ kw @ post"
    unfolding spec_has_keyword_def by (elim bexE exE)
  from t l have "toLowerCase text = (toLowerCase a @ pre) @ kw @ (post @ toLowerCase b)"
    by (simp add: toLowerCase_def)
  with kw show ?thesis
    unfolding spec_has_keyword_def by (intro bexI exI)
qed

text \<open>
  Claim C7. \<open>compress(text)\<close> equals the reference definition \<open>compress_spec\<close>: the lines
  of the text without the blank and white-space-only ones, of these exactly the lines
  whose lower-cased content contains one of therefore, conclusion, solution, approach,
  error, issue, fixed, implement, joined with newlines and truncated to 500 characters.
  So the result is never longer than 500 characters, and it is the empty string whenever
  no line contains a keyword, as it is whenever the text as a whole contains none.
\<close>

theorem compressInsights_refines_spec:
  "compressInsights text = compress_spec text \<and>
   length (compressInsights text) \<le> 500 \<and>
   ((\<forall>l \<in> set (split_str text). \<not> spec_has_keyword l) \<longrightarrow> compressInsights text = []) \<and>
   (\<not> spec_has_keyword text \<longrightarrow> compressInsights text = [])"
proof -
  have "\<not> spec_has_keyword text \<longrightarrow> (\<forall>l \<in> set (split_str text). \<not> spec_has_keyword l)"
    using keyword_of_line by blast
  with compress_eq length_compress compress_no_keyword show ?thesis
    by blast
qed

text \<open>
  The witness: two lines without a keyword compress to the empty string, and of four
  lines (one of white space, one without a keyword) the other two are kept.
\<close>

theorem compressInsights_refines_spec_witness:
  "compressInsights (''nothing here'' @ [nl] @ ''at all'') = [] \<and>
   compress_spec
     (''The approach is a router'' @ [nl] @ ''   '' @ [nl] @ ''nothing here'' @ [nl] @
      ''Fixed the ISSUE'') =
   ''The approach is a router'' @ [nl] @ ''Fixed the ISSUE''"
proof -
  let ?plain = "''nothing here'' @ [nl] @ ''at all''"
  let ?notes = "''The approach is a router'' @ [nl] @ ''   '' @ [nl] @ ''nothing here'' @ [nl] @
      ''Fixed the ISSUE''"
  have h: "\<forall>l \<in> set (split_str ?plain). \<not> spec_has_keyword l"
    using plain_no_keyword by (simp only: plain_split has_keyword_code [symmetric]) simp
  from h compressInsights_refines_spec [of ?plain] have "compressInsights ?plain = []"
    by blast
  moreover from compressInsights_refines_spec [of ?notes] notes_compressed
  have "compress_spec ?notes = ''The approach is a router'' @ [nl] @ ''Fixed the ISSUE''"
    by simp
  ultimately show ?thesis by simp
qed

section \<open>Properties of the prompt generator\<close>

text \<open>
  Claim C8. For every task and every configuration, the prompt generated at depth 0 has
  bounded length (111 characters around the task excerpt, 311 at most), embeds the first
  200 characters of the task at most (the prefix \<open>take 200 originalTask\<close>), and contains
  the literal markers \<open>[approach]\<close>, \<open>[potential_issues]\<close> and \<open>[confidence_0-1]\<close>. So the
  prompt for the task \<open>Build a REST API\<close> contains \<open>Build a REST API\<close>.
\<close>

theorem initial_prompt_shape:
  assumes "depth s = 0"
  shows "generateThinkingPrompt f task s c =
           ''Analyze task: '' @ [dq] @ take 200 task @ [dq, nl] @
           ''Provide: [approach][potential_issues][confidence_0-1]'' @ [nl] @
           ''Format: Single paragraph, minimal words.'' \<and>
         length (generateThinkingPrompt f task s c) = 111 + min 200 (length task) \<and>
         length (generateThinkingPrompt f task s c) \<le> 311 \<and>
         prefix (take 200 task) task \<and>
         length (take 200 task) \<le> 200 \<and>
         includes_str (generateThinkingPrompt f task s c) (take 200 task) \<and>
         includes_str (generateThinkingPrompt f task s c) ''[approach]'' \<and>
         includes_str (generateThinkingPrompt f task s c) ''[potential_issues]'' \<and>
         includes_str (generateThinkingPrompt f task s c) ''[confidence_0-1]''"
proof -
  let ?p = "generateThinkingPrompt f task s c"
  let ?head = "''Analyze task: '' @ [dq] @ take 200 task @ [dq, nl]"
  have eq: "?p = ?head @
           ''Provide: [approach][potential_issues][confidence_0-1]'' @ [nl] @
           ''Format: Single paragraph, minimal words.''"
    using assms by (simp add: generateThinkingPrompt_def)
  have len: "length ?p = 111 + min 200 (length task)"
    by (simp add: eq)
  have pre: "prefix (take 200 task) task"
    by (rule take_is_prefix)
  have t: "includes_str ?p (take 200 task)"
    by (rule includes_strI [where pre = "''Analyze task: '' @ [dq]"]) (simp add: eq)
  have a: "includes_str ?p ''[approach]''"
    by (rule includes_strI [where pre = "?head @ ''Provide: ''"]) (simp add: eq)
  have b: "includes_str ?p ''[potential_issues]''"
    by (rule includes_strI [where pre = "?head @ ''Provide: [approach]''"]) (simp add: eq)
  have c: "includes_str ?p ''[confidence_0-1]''"
    by (rule includes_strI [where pre = "?head @ ''Provide: [approach][potential_issues]''"])
      (simp add: eq)
  from eq len pre t a b c show ?thesis by simp
qed

text \<open>
  The witness is Scenario A: \<open>start("Build a REST API")\<close> with the default configuration.
\<close>

theorem initial_prompt_shape_witness:
  "depth initialState = 0 \<and>
   result (recursiveThink showNumber ''Build a REST API'' emptyConfig) =
     ''Analyze task: '' @ [dq] @ ''Build a REST API'' @ [dq, nl] @
     ''Provide: [approach][potential_issues][confidence_0-1]'' @ [nl] @
     ''Format: Single paragraph, minimal words.'' \<and>
   includes_str (result (recursiveThink showNumber ''Build a REST API'' emptyConfig))
     ''Build a REST API'' \<and>
   includes_str (result (recursiveThink showNumber ''Build a REST API'' emptyConfig))
     ''[approach]'' \<and>
   includes_str (result (recursiveThink showNumber ''Build a REST API'' emptyConfig))
     ''[potential_issues]'' \<and>
   includes_str (result (recursiveThink showNumber ''Build a REST API'' emptyConfig))
     ''[confidence_0-1]'' \<and>
   length (result (recursiveThink showNumber ''Build a REST API'' emptyConfig)) = 127"
proof -
  have h: "depth initialState = 0"
    by (simp add: initialState_def)
  have r: "result (recursiveThink showNumber ''Build a REST API'' emptyConfig) =
    generateThinkingPrompt showNumber ''Build a REST API'' initialState (finalConfig emptyConfig)"
    by (simp add: recursiveThink_def)
  from h initial_prompt_shape [OF h, of showNumber "''Build a REST API''" "finalConfig emptyConfig"]
  show ?thesis by (simp add: r)
qed

section \<open>Properties of the confidence parser\<close>

subsection \<open>The literal and the two character classes\<close>

lemma matchLiteral_Some_iff:
  "matchLiteral ps s = Some rest \<longleftrightarrow>
     (\<exists>w. s = w @ rest \<and> map canonicalize w = map canonicalize ps)"
proof (induction ps s rule: matchLiteral.induct)
  case (1 s)
  then show ?case by auto
next
  case (2 p ps)
  then show ?case by auto
next
  case (3 p ps c cs)
  show ?case
  proof (cases "canonicalize c = canonicalize p")
    case True
    with 3 show ?thesis
      by (auto simp: Cons_eq_append_conv map_eq_Cons_conv)
  next
    case False
    then show ?thesis
      by (auto simp: Cons_eq_append_conv map_eq_Cons_conv)
  qed
qed

lemma canonical_confidence: "map canonicalize ''confidence'' = ''CONFIDENCE''"
  by code_simp

lemma matchLiteral_confidence:
  "matchLiteral ''confidence'' s = Some rest \<longleftrightarrow>
     (\<exists>w. s = w @ rest \<and> map canonicalize w = ''CONFIDENCE'')"
  by (simp only: matchLiteral_Some_iff canonical_confidence)

lemma number_char_no_separator: "isNumberChar c \<Longrightarrow> \<not> isSeparator c"
  by (auto simp: isNumberChar_def isSeparator_def isDigit_def isWhiteSpace_def charCode_def)

lemma canonical_C: "canonicalize c = CHR ''C'' \<Longrightarrow> c = CHR ''C'' \<or> c = CHR ''c''"
proof -
  assume a: "canonicalize c = CHR ''C''"
  show ?thesis
  proof (cases "97 \<le> charCode c \<and> charCode c \<le> 122")
    case True
    with a have "char_of (charCode c - 32) = CHR ''C''"
      by (simp add: canonicalize_def Let_def)
    then have "of_char (char_of (charCode c - 32) :: char) = (of_char CHR ''C'' :: nat)"
      by simp
    with True have "charCode c = 99"
      by (simp add: mod_if split: if_splits)
    then have "(of_char c :: nat) = of_char CHR ''c''"
      by (simp add: charCode_def)
    then have "c = CHR ''c''"
      by (simp only: of_char_eq_iff)
    then show ?thesis
      by simp
  next
    case False
    with a show ?thesis
      by (simp add: canonicalize_def Let_def)
  qed
qed

lemma token_head:
  assumes "matchLiteral ''confidence'' s = Some rest"
  shows "s \<noteq> [] \<and> \<not> isSeparator (hd s) \<and> \<not> isNumberChar (hd s)"
proof -
  from assms obtain w where w: "s = w @ rest" "map canonicalize w = ''CONFIDENCE''"
    by (auto simp: matchLiteral_confidence)
  then obtain c w' where "w = c # w'" "canonicalize c = CHR ''C''"
    by (auto simp: map_eq_Cons_conv)
  with w canonical_C [of c] show ?thesis
    by (auto simp: isSeparator_def isNumberChar_def isDigit_def isWhiteSpace_def charCode_def)
qed


lemma no_border:
  assumes "0 < k" and "k < 10"
  shows "drop k ''CONFIDENCE'' \<noteq> take (10 - k) ''CONFIDENCE''"
proof -
  from assms have "k = 1 \<or> k = 2 \<or> k = 3 \<or> k = 4 \<or> k = 5 \<or> k = 6 \<or> k = 7 \<or> k = 8 \<or> k = 9"
    by arith
  then show ?thesis
    by (elim disjE) simp_all
qed

lemma canonical_length: "map canonicalize w = ''CONFIDENCE'' \<Longrightarrow> length w = 10"
proof -
  assume "map canonicalize w = ''CONFIDENCE''"
  then have "length (map canonicalize w) = length ''CONFIDENCE''"
    by (rule arg_cong)
  then show ?thesis by simp
qed

lemma matchHere_token_rest:
  assumes "map canonicalize w = ''CONFIDENCE''"
  shows "matchHere (w @ v) =
           (let grp = takeWhile isNumberChar (dropWhile isSeparator v)
            in if grp = [] then None else Some grp)"
proof -
  from assms have "matchLiteral ''confidence'' (w @ v) = Some v"
    by (auto simp: matchLiteral_confidence)
  then show ?thesis by (simp add: matchHere_def)
qed

lemma matchHere_straddle:
  assumes u: "u \<noteq> []"
    and mu: "matchHere u = None"
    and tok: "matchLiteral ''confidence'' s = Some rest"
  shows "matchHere (u @ s) = None"
proof (cases "matchLiteral ''confidence'' (u @ s)")
  case None
  then show ?thesis by (simp add: matchHere_def)
next
  case (Some r)
  then obtain w where w: "u @ s = w @ r" "map canonicalize w = ''CONFIDENCE''"
    by (auto simp: matchLiteral_confidence)
  from tok obtain w' where w': "s = w' @ rest" "map canonicalize w' = ''CONFIDENCE''"
    by (auto simp: matchLiteral_confidence)
  have lw: "length w = 10" and lw': "length w' = 10"
    using w(2) w'(2) by (simp_all add: canonical_length)
  show ?thesis
  proof (cases "length u < 10")
    case True
    let ?k = "length u"
    from w(1) lw have "take 10 (u @ s) = w"
      by simp
    with w(2) have "map canonicalize (take 10 (u @ s)) = ''CONFIDENCE''"
      by simp
    with True have a: "map canonicalize u @ map canonicalize (take (10 - ?k) s) = ''CONFIDENCE''"
      by simp
    from w'(1) lw' have "take (10 - ?k) s = take (10 - ?k) w'"
      by simp
    then have "map canonicalize (take (10 - ?k) s) = take (10 - ?k) (map canonicalize w')"
      by (simp add: take_map)
    with w'(2) have b: "map canonicalize (take (10 - ?k) s) = take (10 - ?k) ''CONFIDENCE''"
      by simp
    from a have "drop ?k (map canonicalize u @ map canonicalize (take (10 - ?k) s)) =
      drop ?k ''CONFIDENCE''"
      by (rule arg_cong)
    then have "map canonicalize (take (10 - ?k) s) = drop ?k ''CONFIDENCE''"
      by simp
    with b have "drop ?k ''CONFIDENCE'' = take (10 - ?k) ''CONFIDENCE''"
      by simp
    moreover from u True have "0 < ?k" "?k < 10"
      by simp_all
    ultimately show ?thesis
      using no_border [of ?k] by blast
  next
    case False
    define v where "v = drop 10 u"
    from w(1) have "take 10 (u @ s) = take 10 (w @ r)" and "drop 10 (u @ s) = drop 10 (w @ r)"
      by simp_all
    with lw False have t: "take 10 u = w" and d: "drop 10 u @ s = r"
      by simp_all
    from t have "u = w @ v"
      unfolding v_def by (metis append_take_drop_id)
    moreover from d have "r = v @ s"
      unfolding v_def by simp
    ultimately have v: "u = w @ v" "r = v @ s"
      by simp_all
    from mu v(1) w(2) have g: "takeWhile isNumberChar (dropWhile isSeparator v) = []"
      by (simp add: matchHere_token_rest Let_def split: if_splits)
    have "takeWhile isNumberChar (dropWhile isSeparator (v @ s)) = []"
    proof (cases "\<forall>c \<in> set v. isSeparator c")
      case True
      then have "dropWhile isSeparator (v @ s) = dropWhile isSeparator s"
        by simp
      with token_head [OF tok] show ?thesis
        by (cases s) auto
    next
      case False
      then have "dropWhile isSeparator (v @ s) = dropWhile isSeparator v @ s"
        by (auto simp: dropWhile_append)
      moreover from False have "dropWhile isSeparator v \<noteq> []"
        by simp
      ultimately show ?thesis
        using g by (cases "dropWhile isSeparator v") (auto split: if_splits)
    qed
    with v(1) w(2) show ?thesis
      by (simp add: matchHere_token_rest)
  qed
qed

text \<open>
  \<open>matchHere\<close> against the pattern read as a grammar. What it returns is a match at the
  head of the input: the word in any letter case, separators, and the group, a non-empty
  run of digits and dots. And for every way to read the head of the input as such a
  match, it returns that match's group extended by the digits and dots that follow: the
  separators of a match are forced, and the greedy group is the longest one.
\<close>

lemma matchHere_sound:
  assumes "matchHere s = Some grp"
  shows "\<exists>w seps rest. s = w @ seps @ grp @ rest \<and> matchLiteral ''confidence'' w = Some [] \<and>
           (\<forall>c \<in> set seps. isSeparator c) \<and> grp \<noteq> [] \<and> (\<forall>c \<in> set grp. isNumberChar c)"
proof -
  from assms obtain r where r: "matchLiteral ''confidence'' s = Some r"
    by (cases "matchLiteral ''confidence'' s") (simp_all add: matchHere_def)
  then obtain w where s: "s = w @ r" and w: "map canonicalize w = ''CONFIDENCE''"
    by (auto simp: matchLiteral_confidence)
  let ?seps = "takeWhile isSeparator r"
  let ?d = "dropWhile isSeparator r"
  from assms r have grp: "grp = takeWhile isNumberChar ?d" "grp \<noteq> []"
    by (auto simp: matchHere_def Let_def split: if_splits)
  have "r = ?seps @ grp @ dropWhile isNumberChar ?d"
    by (simp add: grp(1))
  with s have a: "s = w @ ?seps @ grp @ dropWhile isNumberChar ?d"
    by simp
  from w have b: "matchLiteral ''confidence'' w = Some []"
    by (simp add: matchLiteral_confidence)
  have c: "\<forall>c \<in> set ?seps. isSeparator c"
    by (auto dest: set_takeWhileD)
  have d: "\<forall>c \<in> set grp. isNumberChar c"
    unfolding grp(1) by (auto dest: set_takeWhileD)
  from a b c grp(2) d show ?thesis
    by (intro exI conjI)
qed

lemma matchHere_longest:
  assumes "s = w @ seps @ g @ rest"
    and "matchLiteral ''confidence'' w = Some []"
    and "\<forall>c \<in> set seps. isSeparator c"
    and "g \<noteq> []" and "\<forall>c \<in> set g. isNumberChar c"
  shows "matchHere s = Some (g @ takeWhile isNumberChar rest)"
proof -
  from assms(2) have cw: "map canonicalize w = ''CONFIDENCE''"
    by (auto simp: matchLiteral_confidence)
  from assms(4,5) number_char_no_separator have "\<not> isSeparator (hd g)"
    by (cases g) auto
  with assms(4) have "dropWhile isSeparator (g @ rest) = g @ rest"
    by (cases g) auto
  with assms(3) have d: "dropWhile isSeparator (seps @ g @ rest) = g @ rest"
    by simp
  from assms(5) have "takeWhile isNumberChar (g @ rest) = g @ takeWhile isNumberChar rest"
    by simp
  with d assms(1,4) cw show ?thesis
    by (simp add: matchHere_token_rest)
qed

lemma confidenceMatch_skips_prefix:
  assumes "confidenceMatch pre = None"
    and "matchLiteral ''confidence'' s = Some rest"
  shows "confidenceMatch (pre @ s) = confidenceMatch s"
  using assms
proof (induction pre)
  case Nil
  then show ?case by simp
next
  case (Cons c pre)
  from Cons.prems(1) have m: "matchHere (c # pre) = None" and r: "confidenceMatch pre = None"
    by (auto split: option.splits)
  from m Cons.prems(2) have "matchHere ((c # pre) @ s) = None"
    by (intro matchHere_straddle) auto
  with r Cons show ?case
    by simp
qed

lemma confidenceMatch_here: "matchHere s = Some grp \<Longrightarrow> confidenceMatch s = Some grp"
  by (cases s) (auto simp: matchHere_def)

lemma matchHere_token:
  assumes w: "matchLiteral ''confidence'' w = Some []"
    and seps: "\<forall>c \<in> set seps. isSeparator c"
    and grp: "grp \<noteq> []" "\<forall>c \<in> set grp. isNumberChar c"
    and post: "post = [] \<or> \<not> isNumberChar (hd post)"
  shows "matchHere (w @ seps @ grp @ post) = Some grp"
proof -
  from w have cw: "map canonicalize w = ''CONFIDENCE''"
    by (auto simp: matchLiteral_confidence)
  from grp number_char_no_separator have "\<not> isSeparator (hd grp)"
    by (cases grp) auto
  with grp(1) have "dropWhile isSeparator (grp @ post) = grp @ post"
    by (cases grp) auto
  with seps have d: "dropWhile isSeparator (seps @ grp @ post) = grp @ post"
    by simp
  from post have "takeWhile isNumberChar post = []"
    by (cases post) auto
  with grp(2) have "takeWhile isNumberChar (grp @ post) = grp"
    by simp
  with d grp(1) cw show ?thesis
    by (simp add: matchHere_token_rest)
qed

lemma confidenceMatch_leftmost:
  assumes "confidenceMatch pre = None"
    and "matchLiteral ''confidence'' w = Some []"
    and "\<forall>c \<in> set seps. isSeparator c"
    and "grp \<noteq> []" and "\<forall>c \<in> set grp. isNumberChar c"
    and "post = [] \<or> \<not> isNumberChar (hd post)"
  shows "confidenceMatch (pre @ w @ seps @ grp @ post) = Some grp"
proof -
  let ?s = "w @ seps @ grp @ post"
  from assms(2) have "map canonicalize w = ''CONFIDENCE''"
    by (auto simp: matchLiteral_confidence)
  then have "matchLiteral ''confidence'' ?s = Some (seps @ grp @ post)"
    by (auto simp: matchLiteral_confidence)
  with assms(1) have "confidenceMatch (pre @ ?s) = confidenceMatch ?s"
    by (rule confidenceMatch_skips_prefix)
  also from assms(2-) have "\<dots> = Some grp"
    by (intro confidenceMatch_here matchHere_token)
  finally show ?thesis .
qed


lemma confidenceMatch_Some_at:
  "confidenceMatch r = Some g \<Longrightarrow> \<exists>pre s. r = pre @ s \<and> matchHere s = Some g"
proof (induction r)
  case Nil
  then show ?case by simp
next
  case (Cons c cs)
  show ?case
  proof (cases "matchHere (c # cs)")
    case None
    with Cons.prems have "confidenceMatch cs = Some g"
      by simp
    with Cons.IH obtain pre s where "cs = pre @ s" and s: "matchHere s = Some g"
      by blast
    then have "c # cs = (c # pre) @ s"
      by simp
    with s show ?thesis
      by blast
  next
    case (Some h)
    with Cons.prems have "matchHere (c # cs) = Some g"
      by simp
    then have "c # cs = [] @ c # cs \<and> matchHere (c # cs) = Some g"
      by simp
    then show ?thesis
      by blast
  qed
qed

lemma confidenceMatch_Some_word:
  assumes "confidenceMatch r = Some g"
  shows "\<exists>pre w rest. r = pre @ w @ rest \<and> map canonicalize w = ''CONFIDENCE''"
proof -
  from confidenceMatch_Some_at [OF assms] obtain pre s
    where r: "r = pre @ s" and s: "matchHere s = Some g"
    by (elim exE conjE)
  from s obtain rest where "matchLiteral ''confidence'' s = Some rest"
    by (cases "matchLiteral ''confidence'' s") (simp_all add: matchHere_def)
  then obtain w where "s = w @ rest" and w: "map canonicalize w = ''CONFIDENCE''"
    by (auto simp: matchLiteral_confidence)
  with r have "r = pre @ w @ rest"
    by simp
  with w show ?thesis
    by (intro exI conjI)
qed

lemma toLowerChar_canonicalize: "toLowerChar (canonicalize c) = toLowerChar c"
proof (cases "97 \<le> charCode c \<and> charCode c \<le> 122")
  case True
  define m where "m = charCode c - 32"
  from True have m: "65 \<le> m" "m \<le> 90"
    unfolding m_def by arith+
  from True have m32: "m + 32 = charCode c"
    unfolding m_def by arith
  from m have "charCode (char_of m) = m"
    by (simp add: charCode_def)
  with m have "toLowerChar (char_of m) = char_of (m + 32)"
    by (simp add: toLowerChar_def Let_def)
  also have "\<dots> = c"
    unfolding m32 by (simp add: charCode_def)
  finally have low: "toLowerChar (char_of m) = c" .
  from True have "canonicalize c = char_of m"
    unfolding m_def by (simp add: canonicalize_def Let_def)
  with low have "toLowerChar (canonicalize c) = c"
    by simp
  moreover from True have "toLowerChar c = c"
    by (simp add: toLowerChar_def Let_def)
  ultimately show ?thesis
    by simp
next
  case False
  then have "(97 \<le> charCode c \<and> charCode c \<le> 122) = False"
    by blast
  then have "canonicalize c = c"
    by (simp only: canonicalize_def Let_def if_False)
  then show ?thesis
    by simp
qed

lemma lower_confidence: "toLowerCase ''CONFIDENCE'' = ''confidence''"
  by code_simp

lemma toLowerCase_word:
  assumes "map canonicalize w = ''CONFIDENCE''"
  shows "toLowerCase w = ''confidence''"
proof -
  have "toLowerCase w = toLowerCase (map canonicalize w)"
    by (simp add: toLowerCase_def toLowerChar_canonicalize)
  with assms lower_confidence show ?thesis
    by simp
qed

lemma no_word_no_match:
  assumes "\<not> includes_str (toLowerCase r) ''confidence''"
  shows "confidenceMatch r = None"
proof (rule ccontr)
  assume "confidenceMatch r \<noteq> None"
  then obtain g where g: "confidenceMatch r = Some g"
    by auto
  from confidenceMatch_Some_word [OF g] obtain pre w rest
    where r: "r = pre @ w @ rest" and w: "map canonicalize w = ''CONFIDENCE''"
    by (elim exE conjE)
  from r have "toLowerCase r = toLowerCase pre @ toLowerCase w @ toLowerCase rest"
    by (simp add: toLowerCase_def)
  with toLowerCase_word [OF w]
  have "toLowerCase r = toLowerCase pre @ ''confidence'' @ toLowerCase rest"
    by simp
  then have "includes_str (toLowerCase r) ''confidence''"
    by (rule includes_strI)
  with assms show False by contradiction
qed

lemma dot_no_digit: "\<not> isDigit CHR ''.''"
  by (simp add: isDigit_def charCode_def)

lemma parseFloat_number:
  assumes "grp \<noteq> []"
    and "isDigit (hd grp) \<or> (\<exists>d rest. grp = CHR ''.'' # d # rest \<and> isDigit d)"
  shows "\<exists>q\<ge>0. parseFloat grp = Num q"
proof (cases "isDigit (hd grp)")
  case True
  with assms(1) have "takeWhile isDigit grp \<noteq> []"
    by (cases grp) auto
  then show ?thesis
    by (auto simp: parseFloat_def Let_def split: list.splits)
next
  case False
  with assms(2) obtain d rest where g: "grp = CHR ''.'' # d # rest" "isDigit d"
    by blast
  then show ?thesis
    by (simp add: parseFloat_def Let_def dot_no_digit)
qed

lemma parseFloat_092: "parseFloat ''0.92'' = Num (92 / 100)"
  by code_simp


subsection \<open>The parsed confidence\<close>

text \<open>
  Claim C4, as amended. \<open>processIteration\<close> takes the confidence from the leftmost match
  of the pattern \<^verbatim>\<open>/confidence[:\s]*([0-9.]+)/i\<close>. If the text before the word
  \<open>confidence\<close> (in any letter case) holds no match of its own, and the word is followed
  by any run of colons and white space and then by a run of digits and dots that starts
  with a digit, or with a dot and a digit, and that no further digit or dot follows, then
  the confidence of the returned state is \<^verbatim>\<open>parseFloat\<close> of that run, a non-negative
  number: 0.92 for the run \<open>0.92\<close>. A response in which the pattern finds no match, in
  particular one that does not contain \<open>confidence\<close> in any letter case, yields 0.5.
\<close>

theorem parseConfidence_leftmost_match:
  "(confidenceMatch r = None \<longrightarrow>
      confidence (state (processIteration f t r s c)) = Num (1 / 2)) \<and>
   (\<not> includes_str (toLowerCase r) ''confidence'' \<longrightarrow> confidenceMatch r = None) \<and>
   (confidenceMatch pre = None \<and> matchLiteral ''confidence'' w = Some [] \<and>
    (\<forall>c \<in> set seps. isSeparator c) \<and> grp \<noteq> [] \<and> (\<forall>c \<in> set grp. isNumberChar c) \<and>
    (isDigit (hd grp) \<or> (\<exists>d rest. grp = CHR ''.'' # d # rest \<and> isDigit d)) \<and>
    (post = [] \<or> \<not> isNumberChar (hd post)) \<longrightarrow>
      confidence (state (processIteration f t (pre @ w @ seps @ grp @ post) s c)) =
        parseFloat grp \<and>
      (\<exists>q\<ge>0. parseFloat grp = Num q)) \<and>
   parseFloat ''0.92'' = Num (92 / 100)"
proof -
  have a: "confidenceMatch r = None \<longrightarrow>
    confidence (state (processIteration f t r s c)) = Num (1 / 2)"
    by (simp add: processIteration_confidence parseConfidence_def)
  have b: "\<not> includes_str (toLowerCase r) ''confidence'' \<longrightarrow> confidenceMatch r = None"
    by (simp add: no_word_no_match)
  have c: "confidenceMatch pre = None \<and> matchLiteral ''confidence'' w = Some [] \<and>
    (\<forall>c \<in> set seps. isSeparator c) \<and> grp \<noteq> [] \<and> (\<forall>c \<in> set grp. isNumberChar c) \<and>
    (isDigit (hd grp) \<or> (\<exists>d rest. grp = CHR ''.'' # d # rest \<and> isDigit d)) \<and>
    (post = [] \<or> \<not> isNumberChar (hd post)) \<longrightarrow>
      confidence (state (processIteration f t (pre @ w @ seps @ grp @ post) s c)) =
        parseFloat grp \<and>
      (\<exists>q\<ge>0. parseFloat grp = Num q)"
  proof (intro impI)
    assume h: "confidenceMatch pre = None \<and> matchLiteral ''confidence'' w = Some [] \<and>
      (\<forall>c \<in> set seps. isSeparator c) \<and> grp \<noteq> [] \<and> (\<forall>c \<in> set grp. isNumberChar c) \<and>
      (isDigit (hd grp) \<or> (\<exists>d rest. grp = CHR ''.'' # d # rest \<and> isDigit d)) \<and>
      (post = [] \<or> \<not> isNumberChar (hd post))"
    then have "confidenceMatch (pre @ w @ seps @ grp @ post) = Some grp"
      by (intro confidenceMatch_leftmost) simp_all
    then have m: "confidence (state (processIteration f t (pre @ w @ seps @ grp @ post) s c)) =
      parseFloat grp"
      by (simp add: processIteration_confidence parseConfidence_def)
    from h have "grp \<noteq> []"
      and "isDigit (hd grp) \<or> (\<exists>d rest. grp = CHR ''.'' # d # rest \<and> isDigit d)"
      by simp_all
    then have "\<exists>q\<ge>0. parseFloat grp = Num q"
      by (rule parseFloat_number)
    with m show "confidence (state (processIteration f t (pre @ w @ seps @ grp @ post) s c)) =
        parseFloat grp \<and>
      (\<exists>q\<ge>0. parseFloat grp = Num q)"
      by (intro conjI)
  qed
  show ?thesis
    by (intro conjI a b c parseFloat_092)
qed

text \<open>
  The witness: the token \<open>Confidence : 0.92\<close> inside a sentence, and a response that does
  not mention confidence.
\<close>

theorem parseConfidence_leftmost_match_witness:
  "confidence (state (processIteration showNumber ''Build a REST API''
     ''Plan is ready. Confidence : 0.92 for now'' initialState emptyConfig)) = Num (92 / 100) \<and>
   \<not> includes_str (toLowerCase ''I will use Express and a router.'') ''confidence'' \<and>
   confidence (state (processIteration showNumber ''Build a REST API''
     ''I will use Express and a router.'' initialState emptyConfig)) = Num (1 / 2)"
proof -
  let ?r = "''I will use Express and a router.''"
  let ?p = "''Plan is ready. Confidence : 0.92 for now''"
  note inst = parseConfidence_leftmost_match [of ?r showNumber "''Build a REST API''"
      initialState emptyConfig "''Plan is ready. ''" "''Confidence''" "'' : ''" "''0.92''"
      "'' for now''"]
  have ne: "''0.92'' \<noteq> []"
    by simp
  have hyp: "confidenceMatch ''Plan is ready. '' = None \<and>
    matchLiteral ''confidence'' ''Confidence'' = Some [] \<and>
    (\<forall>c \<in> set '' : ''. isSeparator c) \<and> ''0.92'' \<noteq> [] \<and>
    (\<forall>c \<in> set ''0.92''. isNumberChar c) \<and>
    (isDigit (hd ''0.92'') \<or> (\<exists>d rest. ''0.92'' = CHR ''.'' # d # rest \<and> isDigit d)) \<and>
    ('' for now'' = [] \<or> \<not> isNumberChar (hd '' for now''))"
    by (intro conjI disjI1 plan_no_match capital_word plan_classes ne plan_digit)
  have j: "''Plan is ready. '' @ ''Confidence'' @ '' : '' @ ''0.92'' @ '' for now'' = ?p"
    by simp
  from inst [THEN conjunct2, THEN conjunct2, THEN conjunct1, THEN mp, OF hyp, THEN conjunct1]
  have "confidence (state (processIteration showNumber ''Build a REST API'' ?p
    initialState emptyConfig)) = parseFloat ''0.92''"
    by (simp only: j)
  with parseFloat_092
  have a: "confidence (state (processIteration showNumber ''Build a REST API'' ?p
    initialState emptyConfig)) = Num (92 / 100)"
    by simp
  have n: "\<not> includes_str (toLowerCase ?r) ''confidence''"
    by code_simp
  from inst [THEN conjunct2, THEN conjunct1, THEN mp, OF n]
  have "confidenceMatch ?r = None" .
  from inst [THEN conjunct1, THEN mp, OF this]
  have d: "confidence (state (processIteration showNumber ''Build a REST API'' ?r
    initialState emptyConfig)) = Num (1 / 2)" .
  show ?thesis
    by (intro conjI a n d)
qed

text \<open>
  The claim as stated promises 0.92 for every input that contains \<open>confidence: 0.92\<close>.
  The first match decides: a response that contains \<open>confidence: 0.92\<close> after an earlier
  token yields the earlier value, 0.5 here.
\<close>

theorem parseConfidence_counterexample:
  "includes_str ''confidence: 0.5, then confidence: 0.92'' ''confidence: 0.92'' \<and>
   parseConfidence ''confidence: 0.5, then confidence: 0.92'' = Num (1 / 2) \<and>
   confidence (state (processIteration showNumber ''Build a REST API''
     ''confidence: 0.5, then confidence: 0.92'' initialState emptyConfig)) = Num (1 / 2) \<and>
   confidence (state (processIteration showNumber ''Build a REST API''
     ''confidence: 0.5, then confidence: 0.92'' initialState emptyConfig)) \<noteq> Num (92 / 100)"
proof -
  have e: "confidence (state (processIteration showNumber ''Build a REST API''
     ''confidence: 0.5, then confidence: 0.92'' initialState emptyConfig)) = Num (1 / 2)"
    by (simp only: processIteration_confidence two_tokens_confidence)
  then have a: "confidence (state (processIteration showNumber ''Build a REST API''
     ''confidence: 0.5, then confidence: 0.92'' initialState emptyConfig)) \<noteq> Num (92 / 100)"
    by simp
  show ?thesis
    by (intro conjI two_tokens_includes two_tokens_confidence e a)
qed

end
